theory Spec2Isabelle
  imports Main
begin

text \<open>
  The browser client of the agent service: the chat session with its two modes and the
  explorer of the run folders with its history. The functions are those of the newer of
  the two source files, which has the explorer; the older file has the same session
  functions and a \<open>refreshFiles\<close> that lists one folder only.
\<close>

section \<open>JavaScript strings and arrays\<close>

text \<open>
  Strings are byte lists, the UTF-8 encoding of the JavaScript string. \<open>x || d\<close> on a string \<open>x\<close> is \<open>d\<close> exactly when \<open>x\<close> is the
  empty string (the only falsy string); on a value that may be absent (\<open>undefined\<close>,
  \<open>null\<close>) it is \<open>d\<close> as well.
\<close>

definition or_str :: "string \<Rightarrow> string \<Rightarrow> string" where
  "or_str x d = (if x = [] then d else x)"

definition or_opt :: "string option \<Rightarrow> string \<Rightarrow> string" where
  "or_opt x d = (case x of None \<Rightarrow> d | Some v \<Rightarrow> or_str v d)"

text \<open>
  \<open>String.prototype.trim\<close> strips the white space and the line terminators of
  ECMAScript from both ends. In UTF-8 they are one byte (TAB, LF, VT, FF, CR, SPACE), two
  bytes (U+00A0) or three bytes (U+1680, U+2000 to U+200A, U+2028, U+2029, U+202F,
  U+205F, U+3000, U+FEFF).
\<close>

definition ws1 :: "char \<Rightarrow> bool" where
  "ws1 a = (a \<in> {CHR 0x09, CHR 0x0A, CHR 0x0B, CHR 0x0C, CHR 0x0D, CHR 0x20})"

definition ws2 :: "char \<Rightarrow> char \<Rightarrow> bool" where
  "ws2 a b = (a = CHR 0xC2 \<and> b = CHR 0xA0)"

definition ws3 :: "char \<Rightarrow> char \<Rightarrow> char \<Rightarrow> bool" where
  "ws3 a b c =
     (a = CHR 0xE1 \<and> b = CHR 0x9A \<and> c = CHR 0x80
      \<or> a = CHR 0xE2 \<and> b = CHR 0x80 \<and>
          c \<in> {CHR 0x80, CHR 0x81, CHR 0x82, CHR 0x83, CHR 0x84, CHR 0x85, CHR 0x86, CHR 0x87,
               CHR 0x88, CHR 0x89, CHR 0x8A, CHR 0xA8, CHR 0xA9, CHR 0xAF}
      \<or> a = CHR 0xE2 \<and> b = CHR 0x81 \<and> c = CHR 0x9F
      \<or> a = CHR 0xE3 \<and> b = CHR 0x80 \<and> c = CHR 0x80
      \<or> a = CHR 0xEF \<and> b = CHR 0xBB \<and> c = CHR 0xBF)"

fun trimStart :: "string \<Rightarrow> string" where
  "trimStart (a # b # c # s) =
     (if ws1 a then trimStart (b # c # s)
      else if ws2 a b then trimStart (c # s)
      else if ws3 a b c then trimStart s
      else a # b # c # s)"
| "trimStart [a, b] = (if ws1 a then trimStart [b] else if ws2 a b then [] else [a, b])"
| "trimStart [a] = (if ws1 a then [] else [a])"
| "trimStart [] = []"

text \<open>The same from the end, on the reversed string: the bytes of a code point come last first.\<close>

fun trimEnd_rev :: "string \<Rightarrow> string" where
  "trimEnd_rev (c # b # a # s) =
     (if ws1 c then trimEnd_rev (b # a # s)
      else if ws2 b c then trimEnd_rev (a # s)
      else if ws3 a b c then trimEnd_rev s
      else c # b # a # s)"
| "trimEnd_rev [c, b] = (if ws1 c then trimEnd_rev [b] else if ws2 b c then [] else [c, b])"
| "trimEnd_rev [c] = (if ws1 c then [] else [c])"
| "trimEnd_rev [] = []"

definition trim :: "string \<Rightarrow> string" where
  "trim s = rev (trimEnd_rev (rev (trimStart s)))"

text \<open>
  \<open>escapeHtml\<close>: each of the five characters that HTML treats specially becomes its
  character reference.
\<close>

definition dq :: string where
  "dq = [CHR 0x22]"

definition escape_char :: "char \<Rightarrow> string" where
  "escape_char c =
     (if c = CHR ''&'' then ''&amp;''
      else if c = CHR ''<'' then ''&lt;''
      else if c = CHR ''>'' then ''&gt;''
      else if c = CHR 0x22 then ''&quot;''
      else if c = CHR 0x27 then ''&#39;''
      else [c])"

definition escapeHtml :: "string \<Rightarrow> string" where
  "escapeHtml s = concat (map escape_char s)"

text \<open>
  \<open>s.split(c)\<close> for a one-character separator: the empty string gives one empty part,
  and every occurrence of the separator starts a new part.
\<close>

fun js_split :: "char \<Rightarrow> string \<Rightarrow> string list" where
  "js_split c [] = [[]]"
| "js_split c (x # xs) =
     (if x = c then [] # js_split c xs
      else (case js_split c xs of [] \<Rightarrow> [[x]] | y # ys \<Rightarrow> (x # y) # ys))"

text \<open>\<open>parts.join(sep)\<close>.\<close>

fun js_join :: "string \<Rightarrow> string list \<Rightarrow> string" where
  "js_join sep [] = []"
| "js_join sep [x] = x"
| "js_join sep (x # y # ys) = x @ sep @ js_join sep (y # ys)"

text \<open>\<open>xs[i]\<close>: \<open>undefined\<close> out of range.\<close>

definition js_index :: "'a list \<Rightarrow> nat \<Rightarrow> 'a option" where
  "js_index xs i = (if i < length xs then Some (xs ! i) else None)"

section \<open>The page state\<close>

text \<open>
  The module's variables (\<open>mode\<close>, \<open>fullUsed\<close>, \<open>runsHistory\<close>, \<open>historyIndex\<close>,
  \<open>cwd\<close>), the parts of the document its functions write, and the requests that have
  been sent and not yet answered.
\<close>

datatype session_mode = Unset | Convo | Full

datatype role = User | Agent

type_synonym msg = "role \<times> string"

datatype full_endpoint = Api_chat_full | Api_start_full

text \<open>
  An \<open>async\<close> function runs up to its first \<open>await\<close> when it is called and resumes
  when the awaited request settles. A request in flight records what was sent and which
  function waits for it.
\<close>

datatype request =
    StartConvoReq
  | ChatConvoReq string
  | FullReq full_endpoint string
  | ListReq string
  | ValidationReq

text \<open>
  What an awaited \<open>fetch(...)\<close> followed by \<open>res.json()\<close> gives: an exception, or the
  parsed body. Both awaits and the first read of a field are inside the same \<open>try\<close> with
  no assignment in between, so a rejected fetch, a body that is not JSON and a body
  \<open>null\<close> (on which reading \<open>data.ok\<close> throws) all are \<open>Throws\<close>.
\<close>

datatype 'a outcome = Throws | Body 'a

record chat_data =
  ok :: bool
  reply :: "string option"

record dir_entry =
  ename :: string
  epath :: string
  is_dir :: bool
  esize :: "nat option"
  emtime :: "nat option"

text \<open>
  A listing body: \<open>entries\<close> is \<open>None\<close> when the field is not an array; an element that is
  \<open>None\<close> is a \<open>null\<close> entry, on which reading \<open>e.name\<close> throws.
\<close>

record list_data =
  lok :: bool
  lcwd :: "string option"
  lentries :: "dir_entry option list option"

datatype response =
    ChatResp "chat_data outcome"
  | ListResp "list_data outcome"
  | ValResp "string option outcome"

datatype row_action = Open string | Download string

record row =
  label :: string
  rsize :: "nat option"
  rmtime :: "nat option"
  action :: row_action

datatype list_error = FetchFailed | ListFailed | EntryFailed

datatype files_view = Untouched | EmptyFolder | Rows "row list" | FailedToLoad list_error

text \<open>
  The fragments pushed to \<open>crumbs\<close> are instances of two templates: \<open>Span a p\<close> is the
  span template with \<open>a\<close> put in for the \<open>data-path\<close> attribute and \<open>p\<close> for the text,
  \<open>Sep\<close> is the separator. \<open>crumb_html\<close> is the text of a fragment: what is put in is
  not escaped.
\<close>

datatype crumb = Span string string | Sep

fun crumb_html :: "crumb \<Rightarrow> string" where
  "crumb_html (Span a p) = ''<span data-path='' @ dq @ a @ dq @ ''>'' @ p @ ''</span>''"
| "crumb_html Sep = ''<span class='' @ dq @ ''sep'' @ dq @ ''>/</span>''"

datatype validation_view = NotLoaded | NoReport | Report string | ReportFailed

record state =
  mode :: session_mode
  fullUsed :: bool
  chatEl :: "msg list"
  inputValue :: string
  sendBtnDisabled :: bool
  typingHidden :: bool
  runsHistory :: "string list"
  historyIndex :: nat
  cwd :: string
  filesEl :: files_view
  runsBreadcrumb :: string
  runsBackBtnDisabled :: bool
  runsFwdBtnDisabled :: bool
  runsUpBtnDisabled :: bool
  validationBodyEl :: validation_view
  inflight :: "request list"

definition addMsg :: "role \<Rightarrow> string \<Rightarrow> state \<Rightarrow> state" where
  "addMsg r text s = s\<lparr>chatEl := chatEl s @ [(r, text)]\<rparr>"

definition setThinking :: "bool \<Rightarrow> state \<Rightarrow> state" where
  "setThinking on s = s\<lparr>typingHidden := \<not> on\<rparr>"

definition send_request :: "request \<Rightarrow> state \<Rightarrow> state" where
  "send_request q s = s\<lparr>inflight := inflight s @ [q]\<rparr>"

section \<open>The explorer\<close>

definition current_path :: "state \<Rightarrow> string" where
  "current_path s = or_opt (js_index (runsHistory s) (historyIndex s)) []"

fun crumbs_loop :: "string \<Rightarrow> string list \<Rightarrow> crumb list \<Rightarrow> crumb list" where
  "crumbs_loop acc [] crumbs = crumbs"
| "crumbs_loop acc (p # ps) crumbs =
     (if p = [] then crumbs_loop acc ps crumbs
      else (let acc' = (if acc \<noteq> [] then acc @ ''/'' @ p else p)
            in crumbs_loop acc' ps (crumbs @ [Sep, Span acc' p])))"

definition breadcrumb_crumbs :: "string \<Rightarrow> crumb list" where
  "breadcrumb_crumbs path =
     (let parts = (if path \<noteq> [] then js_split CHR ''/'' path else [])
      in crumbs_loop [] parts [Span [] ''runs''])"

text \<open>
  The text assigned to \<open>runsBreadcrumb.innerHTML\<close>: \<open>crumbs.join("")\<close>. The browser
  parses it, and a click on a parsed span that has a \<open>data-path\<close> attribute navigates to
  the value the parser read for it.
\<close>

definition renderBreadcrumb :: "string \<Rightarrow> string" where
  "renderBreadcrumb path = concat (map crumb_html (breadcrumb_crumbs path))"

text \<open>The paths put into the \<open>data-path\<close> attributes of the fragments.\<close>

fun crumb_paths :: "crumb list \<Rightarrow> string list" where
  "crumb_paths [] = []"
| "crumb_paths (Span p t # cs) = p # crumb_paths cs"
| "crumb_paths (Sep # cs) = crumb_paths cs"

definition refreshFiles :: "state \<Rightarrow> state" where
  "refreshFiles s = send_request (ListReq (current_path s)) s"

text \<open>
  A row of the listing. The size is shown for a file that has one, the date for an entry
  whose \<open>mtime\<close> is truthy (present and not 0); how both are formatted is not modelled,
  the row keeps the numbers.
\<close>

definition render_entry :: "dir_entry \<Rightarrow> row" where
  "render_entry e =
     \<lparr>label = ename e @ (if is_dir e then ''/'' else []),
      rsize = (if is_dir e then None else esize e),
      rmtime = (case emtime e of None \<Rightarrow> None | Some t \<Rightarrow> if t = 0 then None else Some t),
      action = (if is_dir e then Open (epath e) else Download (epath e))\<rparr>"

definition refreshFiles_settle :: "list_data outcome \<Rightarrow> state \<Rightarrow> state" where
  "refreshFiles_settle r s =
     (case r of
        Throws \<Rightarrow> s\<lparr>filesEl := FailedToLoad FetchFailed\<rparr>
      | Body data \<Rightarrow>
          if \<not> lok data then s\<lparr>filesEl := FailedToLoad ListFailed\<rparr>
          else
            (let c = or_opt (lcwd data) [];
                 s1 = s\<lparr>cwd := c, runsBreadcrumb := renderBreadcrumb c\<rparr>;
                 entries = (case lentries data of None \<Rightarrow> [] | Some es \<Rightarrow> es)
             in if entries = [] then s1\<lparr>filesEl := EmptyFolder\<rparr>
                else if None \<in> set entries then s1\<lparr>filesEl := FailedToLoad EntryFailed\<rparr>
                else s1\<lparr>filesEl := Rows (map (render_entry \<circ> the) entries)\<rparr>))"

definition updateNavButtons :: "state \<Rightarrow> state" where
  "updateNavButtons s =
     s\<lparr>runsBackBtnDisabled := (historyIndex s \<le> 0),
       runsFwdBtnDisabled := (int (historyIndex s) \<ge> int (length (runsHistory s)) - 1),
       runsUpBtnDisabled := (current_path s = [])\<rparr>"

definition navigateTo :: "string \<Rightarrow> state \<Rightarrow> state" where
  "navigateTo path s =
     updateNavButtons (refreshFiles
       (s\<lparr>runsHistory := take (historyIndex s + 1) (runsHistory s) @ [or_str path []],
          historyIndex := historyIndex s + 1\<rparr>))"

definition goBack :: "state \<Rightarrow> state" where
  "goBack s =
     (if historyIndex s > 0
      then updateNavButtons (refreshFiles (s\<lparr>historyIndex := historyIndex s - 1\<rparr>))
      else s)"

definition goForward :: "state \<Rightarrow> state" where
  "goForward s =
     (if int (historyIndex s) < int (length (runsHistory s)) - 1
      then updateNavButtons (refreshFiles (s\<lparr>historyIndex := historyIndex s + 1\<rparr>))
      else s)"

definition goUp :: "state \<Rightarrow> state" where
  "goUp s =
     (let cur = current_path s
      in if cur = [] then s
         else navigateTo (js_join ''/'' (butlast (js_split CHR ''/'' cur))) s)"

section \<open>The session\<close>

definition refreshValidation :: "state \<Rightarrow> state" where
  "refreshValidation s = send_request ValidationReq s"

text \<open>
  \<open>renderMarkdown\<close> shows the placeholder for a report that is absent or blank; the
  markup it produces otherwise is not modelled, the view keeps the report's source.
\<close>

definition refreshValidation_settle :: "string option outcome \<Rightarrow> state \<Rightarrow> state" where
  "refreshValidation_settle r s =
     (case r of
        Throws \<Rightarrow> s\<lparr>validationBodyEl := ReportFailed\<rparr>
      | Body md \<Rightarrow>
          (let m = or_opt md []
           in if m = [] \<or> trim m = [] then s\<lparr>validationBodyEl := NoReport\<rparr>
              else s\<lparr>validationBodyEl := Report m\<rparr>))"

definition ellipsis :: string where
  "ellipsis = [CHR 0xE2, CHR 0x80, CHR 0xA6]"

definition startConversational :: "state \<Rightarrow> state" where
  "startConversational s =
     send_request StartConvoReq
       (setThinking True
         (addMsg Agent (''Starting conversational agent'' @ ellipsis)
           (s\<lparr>mode := Convo, fullUsed := False, inputValue := []\<rparr>)))"

definition startConversational_settle :: "chat_data outcome \<Rightarrow> state \<Rightarrow> state" where
  "startConversational_settle r s =
     (let s1 = (case r of
                  Body data \<Rightarrow>
                    if ok data then addMsg Agent (or_opt (reply data) ''(no reply)'') s
                    else addMsg Agent ''Failed to start conversational mode.'' s
                | Throws \<Rightarrow> addMsg Agent ''Network error starting conversational mode.'' s)
      in refreshValidation (refreshFiles (setThinking False s1)))"

definition startFullPromptMode :: "state \<Rightarrow> state" where
  "startFullPromptMode s =
     addMsg Agent ''Full Prompt mode: send ONE prompt. After that the input will disappear.''
       (s\<lparr>mode := Full, fullUsed := False, inputValue := []\<rparr>)"

text \<open>The \<open>finally\<close> block of \<open>sendMessage\<close>.\<close>

definition sendMessage_finally :: "state \<Rightarrow> state" where
  "sendMessage_finally s =
     refreshValidation (refreshFiles (setThinking False (s\<lparr>sendBtnDisabled := False\<rparr>)))"

definition sendMessage :: "state \<Rightarrow> state" where
  "sendMessage s =
     (let text = trim (or_str (inputValue s) [])
      in if text = [] then s
         else if mode s = Full \<and> fullUsed s then s
         else
           (let s1 = setThinking True
                       ((addMsg User text s)\<lparr>inputValue := [], sendBtnDisabled := True\<rparr>)
            in if mode s1 = Convo then send_request (ChatConvoReq text) s1
               else if mode s1 = Full then
                 send_request
                   (FullReq (if fullUsed s1 then Api_chat_full else Api_start_full) text) s1
               else sendMessage_finally
                      (addMsg Agent ''Pick a mode: Conversational or Full Prompt.'' s1)))"

text \<open>The rest of the \<open>convo\<close> branch, from the answer of \<open>/api/chat_convo\<close> on.\<close>

definition sendMessage_convo_settle :: "chat_data outcome \<Rightarrow> state \<Rightarrow> state" where
  "sendMessage_convo_settle r s =
     sendMessage_finally
       (case r of
          Body data \<Rightarrow>
            if ok data then addMsg Agent (or_opt (reply data) ''(no reply)'') s
            else addMsg Agent ''Agent error.'' s
        | Throws \<Rightarrow> addMsg Agent ''Network error.'' s)"

text \<open>The rest of the \<open>full\<close> branch, from the answer of the chosen endpoint on.\<close>

definition sendMessage_full_settle :: "chat_data outcome \<Rightarrow> state \<Rightarrow> state" where
  "sendMessage_full_settle r s =
     sendMessage_finally
       (case r of
          Body data \<Rightarrow>
            (if ok data then addMsg Agent (or_opt (reply data) ''(no reply)'') s
             else addMsg Agent ''Agent error.'' s)\<lparr>fullUsed := True\<rparr>
        | Throws \<Rightarrow> addMsg Agent ''Network error.'' s)"

section \<open>Events\<close>

text \<open>
  What can happen to the page: the user types, clicks a button or presses Enter, or a
  request in flight settles. A click on a disabled button dispatches no event. Requests
  settle in any order: \<open>Settle n r\<close> answers the \<open>n\<close>-th request in flight with \<open>r\<close>.
\<close>

datatype event =
    Type string
  | ClickBeginConvo
  | ClickBeginFull
  | ClickSend
  | KeyEnter
  | ClickRefresh
  | ClickBack
  | ClickFwd
  | ClickUp
  | ClickPath string
  | Settle nat response

fun resume :: "request \<Rightarrow> response \<Rightarrow> state \<Rightarrow> state option" where
  "resume StartConvoReq (ChatResp r) s = Some (startConversational_settle r s)"
| "resume (ChatConvoReq m) (ChatResp r) s = Some (sendMessage_convo_settle r s)"
| "resume (FullReq e m) (ChatResp r) s = Some (sendMessage_full_settle r s)"
| "resume (ListReq p) (ListResp r) s = Some (refreshFiles_settle r s)"
| "resume ValidationReq (ValResp r) s = Some (refreshValidation_settle r s)"
| "resume _ _ s = None"

definition settle :: "nat \<Rightarrow> response \<Rightarrow> state \<Rightarrow> state" where
  "settle n r s =
     (case js_index (inflight s) n of
        None \<Rightarrow> s
      | Some q \<Rightarrow>
          (case resume q r (s\<lparr>inflight := take n (inflight s) @ drop (Suc n) (inflight s)\<rparr>) of
             None \<Rightarrow> s
           | Some s' \<Rightarrow> s'))"

fun step :: "event \<Rightarrow> state \<Rightarrow> state" where
  "step (Type t) s = s\<lparr>inputValue := t\<rparr>"
| "step ClickBeginConvo s = startConversational s"
| "step ClickBeginFull s = startFullPromptMode s"
| "step ClickSend s = (if sendBtnDisabled s then s else sendMessage s)"
| "step KeyEnter s = sendMessage s"
| "step ClickRefresh s = refreshFiles s"
| "step ClickBack s = (if runsBackBtnDisabled s then s else goBack s)"
| "step ClickFwd s = (if runsFwdBtnDisabled s then s else goForward s)"
| "step ClickUp s = (if runsUpBtnDisabled s then s else goUp s)"
| "step (ClickPath p) s = navigateTo p s"
| "step (Settle n r) s = settle n r s"

definition exec :: "event list \<Rightarrow> state \<Rightarrow> state" where
  "exec evs s = fold step evs s"

text \<open>
  The page as loaded, and after the module's last two lines have run. The document is
  not part of the sources: the chat is taken to start empty, the buttons enabled and the
  typing indicator hidden.
\<close>

definition loaded :: state where
  "loaded =
     \<lparr>mode = Unset, fullUsed = False, chatEl = [], inputValue = [],
      sendBtnDisabled = False, typingHidden = True,
      runsHistory = [[]], historyIndex = 0, cwd = [],
      filesEl = Untouched, runsBreadcrumb = [],
      runsBackBtnDisabled = False, runsFwdBtnDisabled = False, runsUpBtnDisabled = False,
      validationBodyEl = NotLoaded, inflight = []\<rparr>"

definition boot :: state where
  "boot = updateNavButtons (refreshFiles loaded)"

fun is_chat_request :: "request \<Rightarrow> bool" where
  "is_chat_request (ChatConvoReq m) = True"
| "is_chat_request (FullReq e m) = True"
| "is_chat_request _ = False"

definition chat_inflight :: "state \<Rightarrow> request list" where
  "chat_inflight s = filter is_chat_request (inflight s)"

section \<open>Notions used by the properties\<close>

text \<open>
  The breadcrumb as the specification words it: the non-empty parts of the path, and a
  trail that starts at the root and whose later entries join the parts up to each one.
\<close>

definition segments :: "string \<Rightarrow> string list" where
  "segments c = filter (\<lambda>p. p \<noteq> []) (js_split CHR ''/'' c)"

definition trail :: "string \<Rightarrow> string list" where
  "trail c =
     [] # map (\<lambda>i. js_join ''/'' (take (Suc i) (segments c))) [0..<length (segments c)]"

text \<open>Calls of the history functions, in sequence.\<close>

datatype nav = NavigateTo string | GoBack | GoForward | GoUp

fun nav_step :: "nav \<Rightarrow> state \<Rightarrow> state" where
  "nav_step (NavigateTo p) s = navigateTo p s"
| "nav_step GoBack s = goBack s"
| "nav_step GoForward s = goForward s"
| "nav_step GoUp s = goUp s"

definition run_nav :: "nav list \<Rightarrow> state \<Rightarrow> state" where
  "run_nav ops s = fold nav_step ops s"





text \<open>A chat request fails when it throws (network failure) or its body is not \<open>ok\<close>.\<close>

fun chat_failed :: "chat_data outcome \<Rightarrow> bool" where
  "chat_failed Throws = True"
| "chat_failed (Body d) = (\<not> ok d)"

definition start_errors :: "string list" where
  "start_errors =
     [''Failed to start conversational mode.'', ''Network error starting conversational mode.'']"

text \<open>Two listing bodies used in the scenarios below: one of the root, one of the folder \<open>a\<close>.\<close>

definition root_listing :: list_data where
  "root_listing =
     \<lparr>lok = True, lcwd = Some [],
      lentries = Some [Some \<lparr>ename = ''a'', epath = ''a'', is_dir = True,
                             esize = None, emtime = None\<rparr>]\<rparr>"

definition a_listing :: list_data where
  "a_listing =
     \<lparr>lok = True, lcwd = Some ''a'',
      lentries = Some [Some \<lparr>ename = ''out.csv'', epath = ''a/out.csv'', is_dir = False,
                             esize = Some 10, emtime = None\<rparr>]\<rparr>"



text \<open>A path whose first part, the folder name \<open>my "x"\<close>, holds two double quotes.\<close>

definition quoted_path :: string where
  "quoted_path = ''my '' @ dq @ ''x'' @ dq @ ''/c''"

text \<open>
  A run in which a refresh of the root is still in flight when the user opens the folder
  \<open>a\<close> and the listing of \<open>a\<close> arrives: the root listing is shown, Refresh is
  clicked, the row of \<open>a\<close> is opened, and the second request settles first.
\<close>

definition stale_trace :: "event list" where
  "stale_trace =
     [Settle 0 (ListResp (Body root_listing)), ClickRefresh, ClickPath ''a'',
      Settle 1 (ListResp (Body a_listing))]"

text \<open>What an \<open>ok\<close> listing body puts into the file view.\<close>

definition listing_view :: "list_data \<Rightarrow> files_view" where
  "listing_view d =
     (case lentries d of
        None \<Rightarrow> EmptyFolder
      | Some es \<Rightarrow> if es = [] then EmptyFolder
                  else if None \<in> set es then FailedToLoad EntryFailed
                  else Rows (map (render_entry \<circ> the) es))"

section \<open>Splitting and joining\<close>

lemma js_split_not_Nil: "js_split c s \<noteq> []"
  by (induction s) (auto split: list.splits)

lemma js_join_split: "js_join [c] (js_split c s) = s"
proof (induction s)
  case Nil
  show ?case by simp
next
  case (Cons x xs)
  show ?case
  proof (cases "js_split c xs")
    case Nil
    with js_split_not_Nil show ?thesis by blast
  next
    case (Cons y ys)
    with Cons.IH show ?thesis by (cases ys) auto
  qed
qed

lemma js_split_no_sep: "c \<notin> set s \<Longrightarrow> js_split c s = [s]"
  by (induction s) auto

lemma js_split_append: "js_split c (d @ c # t) = js_split c d @ js_split c t"
proof (induction d)
  case Nil
  show ?case by simp
next
  case (Cons x xs)
  then show ?case using js_split_not_Nil[of c xs]
    by (cases "js_split c xs") auto
qed

lemma parent_of_nested:
  "c \<notin> set seg \<Longrightarrow> js_join [c] (butlast (js_split c (d @ c # seg))) = d"
  by (simp add: js_split_append js_split_no_sep js_join_split)

lemma parent_of_top: "c \<notin> set cur \<Longrightarrow> js_join [c] (butlast (js_split c cur)) = []"
  by (simp add: js_split_no_sep)

lemma js_join_snoc: "xs \<noteq> [] \<Longrightarrow> js_join sep (xs @ [p]) = js_join sep xs @ sep @ p"
  by (induction sep xs rule: js_join.induct) auto

lemma js_join_not_Nil: "xs \<noteq> [] \<Longrightarrow> \<forall>q\<in>set xs. q \<noteq> [] \<Longrightarrow> js_join sep xs \<noteq> []"
  by (induction sep xs rule: js_join.induct) auto

section \<open>The breadcrumb\<close>

lemma crumb_paths_append: "crumb_paths (xs @ ys) = crumb_paths xs @ crumb_paths ys"
  by (induction xs rule: crumb_paths.induct) auto

text \<open>
  The loop's invariant: \<open>acc\<close> is the join of the non-empty parts seen so far (\<open>dn\<close>), and
  each further non-empty part adds one span whose path joins all parts up to it.
\<close>

lemma crumbs_loop_crumb_paths:
  "\<forall>q\<in>set dn. q \<noteq> [] \<Longrightarrow> acc = js_join ''/'' dn \<Longrightarrow>
   crumb_paths (crumbs_loop acc ps cr) =
   crumb_paths cr @ map (\<lambda>i. js_join ''/'' (take (Suc i) (dn @ filter (\<lambda>p. p \<noteq> []) ps)))
                     [length dn ..< length dn + length (filter (\<lambda>p. p \<noteq> []) ps)]"
proof (induction ps arbitrary: acc dn cr)
  case Nil
  then show ?case by simp
next
  case (Cons p ps)
  show ?case
  proof (cases "p = []")
    case True
    with Cons show ?thesis by simp
  next
    case False
    let ?acc = "if acc \<noteq> [] then acc @ ''/'' @ p else p"
    let ?fs = "filter (\<lambda>p. p \<noteq> []) ps"
    let ?f = "\<lambda>i. js_join ''/'' (take (Suc i) (dn @ p # ?fs))"
    have acc': "?acc = js_join ''/'' (dn @ [p])"
    proof (cases "dn = []")
      case True
      with Cons.prems show ?thesis by simp
    next
      case False
      with Cons.prems have "acc \<noteq> []" by (simp add: js_join_not_Nil)
      with False Cons.prems show ?thesis by (simp add: js_join_snoc)
    qed
    have ne: "\<forall>q\<in>set (dn @ [p]). q \<noteq> []" using Cons.prems False by simp
    have "crumb_paths (crumbs_loop acc (p # ps) cr) =
          crumb_paths (crumbs_loop ?acc ps (cr @ [Sep, Span ?acc p]))"
      using False by (simp add: Let_def)
    also have "\<dots> = crumb_paths (cr @ [Sep, Span ?acc p]) @
        map (\<lambda>i. js_join ''/'' (take (Suc i) ((dn @ [p]) @ ?fs)))
            [length (dn @ [p]) ..< length (dn @ [p]) + length ?fs]"
      by (rule Cons.IH[OF ne acc'])
    also have "\<dots> = crumb_paths cr @
        map (\<lambda>i. js_join ''/'' (take (Suc i) (dn @ filter (\<lambda>p. p \<noteq> []) (p # ps))))
            [length dn ..< length dn + length (filter (\<lambda>p. p \<noteq> []) (p # ps))]"
    proof -
      have idx: "[length dn ..< length dn + Suc (length ?fs)] =
                 length dn # [Suc (length dn) ..< length dn + Suc (length ?fs)]"
        by (rule upt_conv_Cons) simp
      have hd: "?f (length dn) = ?acc" by (simp add: acc')
      have "crumb_paths (cr @ [Sep, Span ?acc p]) = crumb_paths cr @ [?acc]"
        by (simp add: crumb_paths_append)
      moreover have "map ?f [length dn ..< length dn + Suc (length ?fs)] =
                     ?acc # map ?f [Suc (length dn) ..< Suc (length dn) + length ?fs]"
        unfolding idx using hd by simp
      ultimately show ?thesis using False by simp
    qed
    finally show ?thesis .
  qed
qed

text \<open>
  What the code puts into the \<open>data-path\<close> attributes is right: the root, then for each
  non-empty part of the path the join of the parts up to it.
\<close>

lemma crumb_paths_trail: "crumb_paths (breadcrumb_crumbs c) = trail c"
proof (cases "c = []")
  case True
  then show ?thesis by (simp add: breadcrumb_crumbs_def trail_def segments_def)
next
  case False
  then show ?thesis
    using crumbs_loop_crumb_paths[of "[]" "[]" "js_split CHR ''/'' c" "[Span [] ''runs'']"]
    by (simp add: breadcrumb_crumbs_def trail_def segments_def)
qed

lemma breadcrumb_abc:
  "renderBreadcrumb ''a/b/c'' =
     ''<span data-path='' @ dq @ dq @ ''>runs</span>''
     @ ''<span class='' @ dq @ ''sep'' @ dq @ ''>/</span>''
     @ ''<span data-path='' @ dq @ ''a'' @ dq @ ''>a</span>''
     @ ''<span class='' @ dq @ ''sep'' @ dq @ ''>/</span>''
     @ ''<span data-path='' @ dq @ ''a/b'' @ dq @ ''>b</span>''
     @ ''<span class='' @ dq @ ''sep'' @ dq @ ''>/</span>''
     @ ''<span data-path='' @ dq @ ''a/b/c'' @ dq @ ''>c</span>''"
  by (simp add: renderBreadcrumb_def breadcrumb_crumbs_def Let_def)

text \<open>
  Claim C6 on the code. For the path \<open>quoted_path\<close> the paths put into the attributes are
  the root, the folder and the whole path, as the claim says; but they are written into
  the text of the breadcrumb as they are, so that the double quote of the folder name
  closes the attribute after \<open>my\<close> and a blank, in the span of the folder and in the span
  of \<open>c\<close>. \<open>escapeHtml\<close>, which the error row of the listing goes through, would have
  written \<open>&quot;\<close>.
\<close>

theorem breadcrumb_quote_unescaped:
  "crumb_paths (breadcrumb_crumbs quoted_path)
     = ['''', ''my '' @ dq @ ''x'' @ dq, ''my '' @ dq @ ''x'' @ dq @ ''/c'']
   \<and> renderBreadcrumb quoted_path =
       ''<span data-path='' @ dq @ dq @ ''>runs</span>''
       @ ''<span class='' @ dq @ ''sep'' @ dq @ ''>/</span>''
       @ ''<span data-path='' @ dq @ ''my '' @ dq @ ''x'' @ dq @ dq @ ''>my '' @ dq @ ''x'' @ dq
       @ ''</span>''
       @ ''<span class='' @ dq @ ''sep'' @ dq @ ''>/</span>''
       @ ''<span data-path='' @ dq @ ''my '' @ dq @ ''x'' @ dq @ ''/c'' @ dq @ ''>c</span>''
   \<and> escapeHtml quoted_path = ''my &quot;x&quot;/c''"
  by (simp add: quoted_path_def renderBreadcrumb_def breadcrumb_crumbs_def dq_def
      escapeHtml_def escape_char_def Let_def)

section \<open>The history\<close>

lemmas handler_defs = navigateTo_def goBack_def goForward_def goUp_def refreshFiles_def
  updateNavButtons_def send_request_def current_path_def js_index_def or_str_def or_opt_def

text \<open>
  Claim C4. When the cursor is not at the end of the history, \<open>navigateTo p\<close> keeps the
  entries up to the cursor, drops every entry after it, appends \<open>p\<close>, and leaves the
  cursor on the appended entry, which is the last one.
\<close>

theorem navigateTo_truncates:
  assumes "historyIndex s + 1 < length (runsHistory s)"
  shows "runsHistory (navigateTo p s) = take (historyIndex s + 1) (runsHistory s) @ [p]
       \<and> historyIndex (navigateTo p s) = historyIndex s + 1
       \<and> historyIndex (navigateTo p s) = length (runsHistory (navigateTo p s)) - 1
       \<and> js_index (runsHistory (navigateTo p s)) (historyIndex (navigateTo p s)) = Some p"
  using assms by (auto simp: handler_defs nth_append)

theorem navigateTo_truncates_witness:
  "historyIndex (run_nav [NavigateTo ''a'', NavigateTo ''b'', GoBack, GoBack] boot) + 1
     < length (runsHistory (run_nav [NavigateTo ''a'', NavigateTo ''b'', GoBack, GoBack] boot))
   \<and> runsHistory (run_nav [NavigateTo ''a'', NavigateTo ''b'', GoBack, GoBack] boot)
       = ['''', ''a'', ''b'']
   \<and> runsHistory
        (navigateTo ''c'' (run_nav [NavigateTo ''a'', NavigateTo ''b'', GoBack, GoBack] boot))
       = ['''', ''c'']
   \<and> historyIndex
        (navigateTo ''c'' (run_nav [NavigateTo ''a'', NavigateTo ''b'', GoBack, GoBack] boot))
       = 1"
proof -
  let ?s = "run_nav [NavigateTo ''a'', NavigateTo ''b'', GoBack, GoBack] boot"
  have h: "runsHistory ?s = ['''', ''a'', ''b''] \<and> historyIndex ?s = 0"
    by (simp add: run_nav_def boot_def loaded_def handler_defs)
  then have "historyIndex ?s + 1 < length (runsHistory ?s)" by simp
  from navigateTo_truncates[OF this, of "''c''"] h show ?thesis by simp
qed

lemma idx_navigateTo:
  "historyIndex s < length (runsHistory s) \<Longrightarrow>
   historyIndex (navigateTo p s) < length (runsHistory (navigateTo p s))"
  by (simp add: handler_defs)

lemma idx_goBack:
  "historyIndex s < length (runsHistory s) \<Longrightarrow>
   historyIndex (goBack s) < length (runsHistory (goBack s))"
  by (auto simp add: handler_defs)

lemma idx_goForward:
  "historyIndex s < length (runsHistory s) \<Longrightarrow>
   historyIndex (goForward s) < length (runsHistory (goForward s))"
  by (auto simp add: handler_defs)

lemma idx_goUp:
  "historyIndex s < length (runsHistory s) \<Longrightarrow>
   historyIndex (goUp s) < length (runsHistory (goUp s))"
  unfolding goUp_def Let_def using idx_navigateTo by simp

lemma idx_nav_step:
  "historyIndex s < length (runsHistory s) \<Longrightarrow>
   historyIndex (nav_step op s) < length (runsHistory (nav_step op s))"
  by (cases op) (simp_all add: idx_navigateTo idx_goBack idx_goForward idx_goUp)

lemma idx_run_nav:
  "historyIndex s < length (runsHistory s) \<Longrightarrow>
   historyIndex (run_nav ops s) < length (runsHistory (run_nav ops s))"
  unfolding run_nav_def
  by (induction ops arbitrary: s) (simp_all add: idx_nav_step)

lemma idx_boot: "historyIndex boot < length (runsHistory boot)"
  by (simp add: boot_def loaded_def handler_defs)

text \<open>
  Claim C5. After any sequence of \<open>navigateTo\<close>, \<open>goBack\<close>, \<open>goForward\<close> (and \<open>goUp\<close>)
  from the booted page, the cursor is an index of the history; \<open>goBack\<close> with the cursor
  at 0 and \<open>goForward\<close> with the cursor at the last index change nothing at all.
\<close>

theorem history_cursor_in_range:
  "historyIndex (run_nav ops boot) < length (runsHistory (run_nav ops boot))
   \<and> (historyIndex (run_nav ops boot) = 0 \<longrightarrow> goBack (run_nav ops boot) = run_nav ops boot)
   \<and> (historyIndex (run_nav ops boot) = length (runsHistory (run_nav ops boot)) - 1
        \<longrightarrow> goForward (run_nav ops boot) = run_nav ops boot)"
  using idx_run_nav[OF idx_boot, of ops] by (auto simp: goBack_def goForward_def)

theorem history_cursor_in_range_witness:
  "historyIndex (run_nav [NavigateTo ''a'', GoBack] boot) = 0
   \<and> goBack (run_nav [NavigateTo ''a'', GoBack] boot) = run_nav [NavigateTo ''a'', GoBack] boot
   \<and> historyIndex (run_nav [NavigateTo ''a'', GoBack, GoForward] boot)
       = length (runsHistory (run_nav [NavigateTo ''a'', GoBack, GoForward] boot)) - 1
   \<and> goForward (run_nav [NavigateTo ''a'', GoBack, GoForward] boot)
       = run_nav [NavigateTo ''a'', GoBack, GoForward] boot"
proof -
  have b: "historyIndex (run_nav [NavigateTo ''a'', GoBack] boot) = 0"
    by (simp add: run_nav_def boot_def loaded_def handler_defs)
  have f: "historyIndex (run_nav [NavigateTo ''a'', GoBack, GoForward] boot)
       = length (runsHistory (run_nav [NavigateTo ''a'', GoBack, GoForward] boot)) - 1"
    by (simp add: run_nav_def boot_def loaded_def handler_defs)
  from history_cursor_in_range[of "[NavigateTo ''a'', GoBack]"]
       history_cursor_in_range[of "[NavigateTo ''a'', GoBack, GoForward]"] b f
  show ?thesis by blast
qed

text \<open>
  Claim C7. \<open>goUp\<close> changes nothing when the current path is the root. Otherwise it
  calls \<open>navigateTo\<close> on the current path without its last part: for a path \<open>d/seg\<close>
  the parent is \<open>d\<close>, for a path of one part it is the root. The parent is pushed as a
  new history entry after the cursor, and the cursor moves forward onto it.
\<close>

theorem goUp_pushes_parent:
  "(current_path s = [] \<longrightarrow> goUp s = s)
   \<and> (current_path s \<noteq> [] \<longrightarrow>
        goUp s = navigateTo (js_join ''/'' (butlast (js_split CHR ''/'' (current_path s)))) s)
   \<and> (current_path s = d @ ''/'' @ seg \<and> CHR ''/'' \<notin> set seg \<longrightarrow>
        runsHistory (goUp s) = take (historyIndex s + 1) (runsHistory s) @ [d]
        \<and> historyIndex (goUp s) = historyIndex s + 1)
   \<and> (current_path s \<noteq> [] \<and> CHR ''/'' \<notin> set (current_path s) \<longrightarrow>
        runsHistory (goUp s) = take (historyIndex s + 1) (runsHistory s) @ [[]]
        \<and> historyIndex (goUp s) = historyIndex s + 1)"
proof -
  have nav: "runsHistory (navigateTo p s) = take (historyIndex s + 1) (runsHistory s) @ [p]
             \<and> historyIndex (navigateTo p s) = historyIndex s + 1" for p
    by (simp add: navigateTo_def refreshFiles_def updateNavButtons_def send_request_def or_str_def)
  have a: "current_path s = [] \<longrightarrow> goUp s = s" by (simp add: goUp_def)
  have b: "current_path s \<noteq> [] \<longrightarrow>
        goUp s = navigateTo (js_join ''/'' (butlast (js_split CHR ''/'' (current_path s)))) s"
    by (simp add: goUp_def)
  have c: "current_path s = d @ ''/'' @ seg \<and> CHR ''/'' \<notin> set seg \<longrightarrow>
        runsHistory (goUp s) = take (historyIndex s + 1) (runsHistory s) @ [d]
        \<and> historyIndex (goUp s) = historyIndex s + 1"
  proof
    assume h: "current_path s = d @ ''/'' @ seg \<and> CHR ''/'' \<notin> set seg"
    then have "js_join ''/'' (butlast (js_split CHR ''/'' (current_path s))) = d"
      using parent_of_nested[of "CHR ''/''" seg d] by simp
    moreover from h have "current_path s \<noteq> []" by simp
    ultimately show "runsHistory (goUp s) = take (historyIndex s + 1) (runsHistory s) @ [d]
        \<and> historyIndex (goUp s) = historyIndex s + 1"
      using b nav[of d] by simp
  qed
  have d: "current_path s \<noteq> [] \<and> CHR ''/'' \<notin> set (current_path s) \<longrightarrow>
        runsHistory (goUp s) = take (historyIndex s + 1) (runsHistory s) @ [[]]
        \<and> historyIndex (goUp s) = historyIndex s + 1"
    using b nav[of "[]"] parent_of_top[of "CHR ''/''" "current_path s"] by simp
  from a b c d show ?thesis by blast
qed

theorem goUp_pushes_parent_witness:
  "goUp boot = boot
   \<and> current_path (run_nav [NavigateTo ''a/b''] boot) = ''a'' @ ''/'' @ ''b''
   \<and> runsHistory (goUp (run_nav [NavigateTo ''a/b''] boot)) = ['''', ''a/b'', ''a'']
   \<and> historyIndex (goUp (run_nav [NavigateTo ''a/b''] boot)) = 2
   \<and> runsHistory (goUp (run_nav [NavigateTo ''a''] boot)) = ['''', ''a'', '''']
   \<and> historyIndex (goUp (run_nav [NavigateTo ''a''] boot)) = 2"
proof -
  have h0: "current_path boot = []"
    by (simp add: boot_def loaded_def handler_defs)
  have h1: "current_path (run_nav [NavigateTo ''a/b''] boot) = ''a'' @ ''/'' @ ''b''
            \<and> CHR ''/'' \<notin> set ''b''"
    by (simp add: run_nav_def boot_def loaded_def handler_defs)
  have h2: "runsHistory (run_nav [NavigateTo ''a/b''] boot) = ['''', ''a/b'']
            \<and> historyIndex (run_nav [NavigateTo ''a/b''] boot) = 1"
    by (simp add: run_nav_def boot_def loaded_def handler_defs)
  let ?s = "run_nav [NavigateTo ''a/b''] boot"
  let ?t = "run_nav [NavigateTo ''a''] boot"
  have h3: "current_path ?t \<noteq> [] \<and> CHR ''/'' \<notin> set (current_path ?t)"
    by (simp add: run_nav_def boot_def loaded_def handler_defs)
  have h4: "runsHistory ?t = ['''', ''a''] \<and> historyIndex ?t = 1"
    by (simp add: run_nav_def boot_def loaded_def handler_defs)
  have "goUp boot = boot" using goUp_pushes_parent[of boot] h0 by blast
  moreover have "runsHistory (goUp ?s) = take (historyIndex ?s + 1) (runsHistory ?s) @ [''a'']
        \<and> historyIndex (goUp ?s) = historyIndex ?s + 1"
    using goUp_pushes_parent[of ?s "''a''" "''b''"] h1 by blast
  moreover have "runsHistory (goUp ?t) = take (historyIndex ?t + 1) (runsHistory ?t) @ [[]]
        \<and> historyIndex (goUp ?t) = historyIndex ?t + 1"
    using goUp_pushes_parent[of ?t] h3 by blast
  ultimately show ?thesis using h1 h2 h4 by simp
qed

section \<open>The session\<close>

lemmas session_defs = sendMessage_def sendMessage_finally_def sendMessage_convo_settle_def
  sendMessage_full_settle_def startConversational_def startConversational_settle_def
  startFullPromptMode_def addMsg_def setThinking_def refreshValidation_def
  refreshValidation_settle_def

lemmas run_defs = exec_def settle_def refreshFiles_settle_def boot_def loaded_def
  trim_def ws1_def ws2_def ws3_def Let_def

text \<open>
  Claim C10. A submit of text that is not blank while no mode is selected sends no chat
  request: the user's message and one agent message asking to pick a mode are appended,
  and the only requests issued are the listing refresh and the validation refresh that
  follow.
\<close>

theorem submit_without_mode:
  assumes "mode s = Unset" and "trim (inputValue s) \<noteq> []"
  shows "chatEl (sendMessage s) =
           chatEl s @ [(User, trim (inputValue s)),
                       (Agent, ''Pick a mode: Conversational or Full Prompt.'')]
       \<and> inflight (sendMessage s) = inflight s @ [ListReq (current_path s), ValidationReq]
       \<and> chat_inflight (sendMessage s) = chat_inflight s
       \<and> \<not> sendBtnDisabled (sendMessage s)
       \<and> mode (sendMessage s) = Unset"
  using assms
  by (simp add: session_defs refreshFiles_def send_request_def current_path_def
      chat_inflight_def or_str_def Let_def)

theorem submit_without_mode_witness:
  "mode (step (Type '' hi '') boot) = Unset
   \<and> chatEl (sendMessage (step (Type '' hi '') boot)) =
        [(User, ''hi''), (Agent, ''Pick a mode: Conversational or Full Prompt.'')]
   \<and> inflight (sendMessage (step (Type '' hi '') boot)) = [ListReq [], ListReq [], ValidationReq]"
proof -
  have h1: "mode (step (Type '' hi '') boot) = Unset"
    by (simp add: boot_def loaded_def handler_defs)
  have h2: "trim (inputValue (step (Type '' hi '') boot)) = ''hi''"
    by (simp add: trim_def ws1_def ws2_def ws3_def)
  then have h3: "trim (inputValue (step (Type '' hi '') boot)) \<noteq> []" by simp
  have h4: "chatEl (step (Type '' hi '') boot) = [] \<and> inflight (step (Type '' hi '') boot) = [ListReq []]
     \<and> current_path (step (Type '' hi '') boot) = []"
    by (simp add: boot_def loaded_def handler_defs)
  from submit_without_mode[OF h1 h3] h1 h2 h4 show ?thesis by simp
qed

text \<open>
  Claim C8. When the start request of \<open>startConversational\<close> fails, by an exception or
  by a body that is not \<open>ok\<close>, the transcript gains the starting notice and then exactly
  one error message, both from the agent; the mode is \<open>Convo\<close> all the same, and a
  following submit of text that is not blank goes to the conversational chat endpoint.
\<close>

theorem start_failure_keeps_convo:
  assumes "chat_failed r"
  shows "(\<exists>e\<in>set start_errors.
            chatEl (exec [ClickBeginConvo, Settle (length (inflight s)) (ChatResp r)] s) =
              chatEl s @ [(Agent, ''Starting conversational agent'' @ ellipsis), (Agent, e)])
       \<and> mode (exec [ClickBeginConvo, Settle (length (inflight s)) (ChatResp r)] s) = Convo
       \<and> (trim t \<noteq> [] \<longrightarrow>
            inflight (exec [ClickBeginConvo, Settle (length (inflight s)) (ChatResp r),
                            Type t, KeyEnter] s) =
            inflight (exec [ClickBeginConvo, Settle (length (inflight s)) (ChatResp r)] s)
              @ [ChatConvoReq (trim t)])"
  using assms
  by (cases r)
     (simp_all add: exec_def settle_def session_defs handler_defs start_errors_def Let_def)

theorem start_failure_keeps_convo_witness:
  "chat_failed (Body \<lparr>ok = False, reply = None\<rparr>)
   \<and> mode (exec [ClickBeginConvo, Settle 1 (ChatResp (Body \<lparr>ok = False, reply = None\<rparr>))] boot)
       = Convo
   \<and> chat_inflight
        (exec [ClickBeginConvo, Settle 1 (ChatResp (Body \<lparr>ok = False, reply = None\<rparr>)),
               Type ''retry'', KeyEnter] boot) = [ChatConvoReq ''retry'']"
proof -
  have h: "chat_failed (Body \<lparr>ok = False, reply = None\<rparr>)" by simp
  have l: "length (inflight boot) = 1" by (simp add: run_defs handler_defs)
  have t: "trim ''retry'' = ''retry''" by (simp add: trim_def ws1_def ws2_def ws3_def)
  have i: "chat_inflight
             (exec [ClickBeginConvo, Settle 1 (ChatResp (Body \<lparr>ok = False, reply = None\<rparr>))] boot)
           = []"
    by (simp add: run_defs handler_defs session_defs chat_inflight_def)
  from start_failure_keeps_convo[OF h, of boot "''retry''"] l t i show ?thesis
    by (simp add: chat_inflight_def)
qed

text \<open>
  In \<open>full\<close> mode with the flag set, no event other than a begin action clears the flag or
  leaves the mode: the answers of requests still in flight do not either.
\<close>

lemma resume_consumed:
  "resume q r s = Some s' \<Longrightarrow> mode s = Full \<Longrightarrow> fullUsed s \<Longrightarrow> mode s' = Full \<and> fullUsed s'"
  by (cases "(q, r, s)" rule: resume.cases)
     (auto simp: session_defs refreshFiles_def send_request_def refreshFiles_settle_def Let_def
           split: outcome.splits if_splits)

lemma settle_consumed:
  "mode s = Full \<Longrightarrow> fullUsed s \<Longrightarrow> mode (settle n r s) = Full \<and> fullUsed (settle n r s)"
  unfolding settle_def
  by (auto split: option.splits dest!: resume_consumed)

lemma step_consumed:
  assumes "mode s = Full" and "fullUsed s" and "e \<noteq> ClickBeginConvo" and "e \<noteq> ClickBeginFull"
  shows "mode (step e s) = Full \<and> fullUsed (step e s)"
  using assms
  by (cases e) (simp_all add: settle_consumed sendMessage_def handler_defs Let_def)

lemma exec_consumed:
  "mode s = Full \<Longrightarrow> fullUsed s \<Longrightarrow>
   ClickBeginConvo \<notin> set evs \<Longrightarrow> ClickBeginFull \<notin> set evs \<Longrightarrow>
   mode (exec evs s) = Full \<and> fullUsed (exec evs s)"
  unfolding exec_def
proof (induction evs arbitrary: s)
  case Nil
  then show ?case by simp
next
  case (Cons e evs)
  from Cons.prems have "mode (step e s) = Full \<and> fullUsed (step e s)"
    by (intro step_consumed) auto
  with Cons show ?case by simp
qed

text \<open>
  Claim C2, as stated, fails: when the first request in \<open>full\<close> mode throws (a network
  failure), \<open>fullUsed\<close> is still false after it has settled, and the next submit is
  accepted and sends a second request to the start endpoint.
\<close>

theorem full_prompt_consumed_counterexample:
  "mode (exec [ClickBeginFull, Type ''hello'', KeyEnter] boot) = Full
   \<and> inflight (exec [ClickBeginFull, Type ''hello'', KeyEnter] boot)
        = [ListReq '''', FullReq Api_start_full ''hello'']
   \<and> \<not> fullUsed (exec [ClickBeginFull, Type ''hello'', KeyEnter, Settle 1 (ChatResp Throws)] boot)
   \<and> chat_inflight (exec [ClickBeginFull, Type ''hello'', KeyEnter, Settle 1 (ChatResp Throws),
                           Type ''again'', KeyEnter] boot) = [FullReq Api_start_full ''again'']
   \<and> chatEl (exec [ClickBeginFull, Type ''hello'', KeyEnter, Settle 1 (ChatResp Throws),
                    Type ''again'', KeyEnter] boot)
        = [(Agent, ''Full Prompt mode: send ONE prompt. After that the input will disappear.''),
           (User, ''hello''), (Agent, ''Network error.''), (User, ''again'')]"
  by (simp add: run_defs handler_defs session_defs chat_inflight_def)

text \<open>
  Claim C2, amended. In \<open>full\<close> mode with the flag clear, a submit of text that is not
  blank sends one request to the start endpoint. When that request settles with a body,
  \<open>ok\<close> or not, \<open>fullUsed\<close> is true and the mode is still \<open>full\<close>, and from then on,
  whatever happens short of a begin action, a submit changes nothing. When the request
  throws, \<open>fullUsed\<close> stays false.
\<close>

theorem full_prompt_consumed_on_response:
  assumes "mode s = Full" and "\<not> fullUsed s" and "trim (inputValue s) \<noteq> []"
  shows "inflight (sendMessage s) = inflight s @ [FullReq Api_start_full (trim (inputValue s))]
       \<and> fullUsed (step (Settle (length (inflight s)) (ChatResp (Body d))) (sendMessage s))
       \<and> mode (step (Settle (length (inflight s)) (ChatResp (Body d))) (sendMessage s)) = Full
       \<and> (ClickBeginConvo \<notin> set evs \<and> ClickBeginFull \<notin> set evs \<longrightarrow>
            sendMessage
              (exec evs (step (Settle (length (inflight s)) (ChatResp (Body d))) (sendMessage s)))
            = exec evs (step (Settle (length (inflight s)) (ChatResp (Body d))) (sendMessage s)))
       \<and> \<not> fullUsed (step (Settle (length (inflight s)) (ChatResp Throws)) (sendMessage s))
       \<and> mode (step (Settle (length (inflight s)) (ChatResp Throws)) (sendMessage s)) = Full"
proof -
  let ?ok = "step (Settle (length (inflight s)) (ChatResp (Body d))) (sendMessage s)"
  have a: "inflight (sendMessage s) = inflight s @ [FullReq Api_start_full (trim (inputValue s))]"
    using assms by (simp add: session_defs send_request_def or_str_def Let_def)
  have b: "fullUsed ?ok \<and> mode ?ok = Full"
    using assms by (simp add: settle_def js_index_def session_defs handler_defs Let_def)
  have c: "ClickBeginConvo \<notin> set evs \<and> ClickBeginFull \<notin> set evs
           \<longrightarrow> sendMessage (exec evs ?ok) = exec evs ?ok"
  proof
    assume "ClickBeginConvo \<notin> set evs \<and> ClickBeginFull \<notin> set evs"
    with b have "mode (exec evs ?ok) = Full \<and> fullUsed (exec evs ?ok)"
      by (simp add: exec_consumed)
    then show "sendMessage (exec evs ?ok) = exec evs ?ok"
      by (simp add: sendMessage_def Let_def)
  qed
  have e: "\<not> fullUsed (step (Settle (length (inflight s)) (ChatResp Throws)) (sendMessage s))
       \<and> mode (step (Settle (length (inflight s)) (ChatResp Throws)) (sendMessage s)) = Full"
    using assms by (simp add: settle_def js_index_def session_defs handler_defs Let_def)
  from a b c e show ?thesis by blast
qed

theorem full_prompt_consumed_on_response_witness:
  "mode (exec [ClickBeginFull, Type ''hello''] boot) = Full
   \<and> \<not> fullUsed (exec [ClickBeginFull, Type ''hello''] boot)
   \<and> trim (inputValue (exec [ClickBeginFull, Type ''hello''] boot)) \<noteq> []
   \<and> fullUsed (step (Settle 1 (ChatResp (Body \<lparr>ok = False, reply = None\<rparr>)))
                 (sendMessage (exec [ClickBeginFull, Type ''hello''] boot)))
   \<and> sendMessage
       (exec [Type ''again'']
          (step (Settle 1 (ChatResp (Body \<lparr>ok = False, reply = None\<rparr>)))
             (sendMessage (exec [ClickBeginFull, Type ''hello''] boot))))
     = exec [Type ''again'']
          (step (Settle 1 (ChatResp (Body \<lparr>ok = False, reply = None\<rparr>)))
             (sendMessage (exec [ClickBeginFull, Type ''hello''] boot)))
   \<and> \<not> fullUsed (step (Settle 1 (ChatResp Throws))
                   (sendMessage (exec [ClickBeginFull, Type ''hello''] boot)))"
proof -
  let ?s = "exec [ClickBeginFull, Type ''hello''] boot"
  have h1: "mode ?s = Full" by (simp add: run_defs handler_defs session_defs)
  have h2: "\<not> fullUsed ?s" by (simp add: run_defs handler_defs session_defs)
  have h3: "trim (inputValue ?s) \<noteq> []" by (simp add: run_defs handler_defs session_defs)
  have l: "length (inflight ?s) = 1" by (simp add: run_defs handler_defs session_defs)
  have ev: "ClickBeginConvo \<notin> set [Type ''again''] \<and> ClickBeginFull \<notin> set [Type ''again'']"
    by simp
  from full_prompt_consumed_on_response[OF h1 h2 h3, of "\<lparr>ok = False, reply = None\<rparr>" "[Type ''again'']"]
       h1 h2 h3 l ev
  show ?thesis by simp
qed

text \<open>
  Claim C3 on the code. While the request of a first submit is in flight the send button
  is disabled, and a click on it does nothing; but Enter in the input calls
  \<open>sendMessage\<close> all the same, which appends the second user message and sends a second
  chat request: two chat requests are in flight.
\<close>

theorem second_submit_while_pending:
  "sendBtnDisabled (exec [ClickBeginConvo, Type ''one'', KeyEnter] boot)
   \<and> chat_inflight (exec [ClickBeginConvo, Type ''one'', KeyEnter] boot) = [ChatConvoReq ''one'']
   \<and> exec [ClickBeginConvo, Type ''one'', KeyEnter, Type ''two'', ClickSend] boot
       = exec [ClickBeginConvo, Type ''one'', KeyEnter, Type ''two''] boot
   \<and> chat_inflight (exec [ClickBeginConvo, Type ''one'', KeyEnter, Type ''two'', KeyEnter] boot)
       = [ChatConvoReq ''one'', ChatConvoReq ''two'']
   \<and> chatEl (exec [ClickBeginConvo, Type ''one'', KeyEnter, Type ''two'', KeyEnter] boot)
       = chatEl (exec [ClickBeginConvo, Type ''one'', KeyEnter] boot) @ [(User, ''two'')]"
  by (simp add: run_defs handler_defs session_defs chat_inflight_def)

section \<open>Listing responses\<close>




text \<open>
  Claim C1, as stated, fails. After \<open>stale_trace\<close> the current path is \<open>a\<close>, the listing
  of \<open>a\<close> is shown and \<open>cwd\<close> is \<open>a\<close>, and the request for the root, sent before the
  navigation, is still in flight. When it settles, its listing replaces the one shown and
  \<open>cwd\<close> becomes the root, although the current path is still \<open>a\<close>.
\<close>

theorem stale_listing_discarded_counterexample:
  "current_path (exec stale_trace boot) = ''a''
   \<and> inflight (exec stale_trace boot) = [ListReq '''']
   \<and> cwd (exec stale_trace boot) = ''a''
   \<and> filesEl (exec stale_trace boot)
        = Rows [\<lparr>label = ''out.csv'', rsize = Some 10, rmtime = None,
                 action = Download ''a/out.csv''\<rparr>]
   \<and> current_path (step (Settle 0 (ListResp (Body root_listing))) (exec stale_trace boot)) = ''a''
   \<and> cwd (step (Settle 0 (ListResp (Body root_listing))) (exec stale_trace boot)) = ''''
   \<and> filesEl (step (Settle 0 (ListResp (Body root_listing))) (exec stale_trace boot))
        = Rows [\<lparr>label = ''a/'', rsize = None, rmtime = None, action = Open ''a''\<rparr>]
   \<and> filesEl (step (Settle 0 (ListResp (Body root_listing))) (exec stale_trace boot))
        \<noteq> filesEl (exec stale_trace boot)
   \<and> cwd (step (Settle 0 (ListResp (Body root_listing))) (exec stale_trace boot))
        \<noteq> cwd (exec stale_trace boot)"
  by (simp add: stale_trace_def run_defs handler_defs a_listing_def root_listing_def
      render_entry_def)

text \<open>
  Claim C1, amended. A listing response is applied when it settles, whatever path it was
  requested for and whatever the current path is by then: an \<open>ok\<close> body sets \<open>cwd\<close> and
  the breadcrumb from the body's \<open>cwd\<close> and the file view from the body's entries. The
  history and the cursor are left as they are.
\<close>

theorem listing_response_applied:
  assumes "js_index (inflight s) n = Some (ListReq p)" and "lok d"
  shows "cwd (step (Settle n (ListResp (Body d))) s) = or_opt (lcwd d) []
       \<and> runsBreadcrumb (step (Settle n (ListResp (Body d))) s)
           = renderBreadcrumb (or_opt (lcwd d) [])
       \<and> filesEl (step (Settle n (ListResp (Body d))) s) = listing_view d
       \<and> runsHistory (step (Settle n (ListResp (Body d))) s) = runsHistory s
       \<and> historyIndex (step (Settle n (ListResp (Body d))) s) = historyIndex s"
  using assms
  by (simp add: settle_def refreshFiles_settle_def listing_view_def Let_def split: option.splits)

theorem listing_response_applied_witness:
  "js_index (inflight (exec [ClickPath ''a'', ClickPath ''b''] boot)) 1 = Some (ListReq ''a'')
   \<and> lok a_listing
   \<and> current_path (exec [ClickPath ''a'', ClickPath ''b''] boot) = ''b''
   \<and> cwd (step (Settle 1 (ListResp (Body a_listing))) (exec [ClickPath ''a'', ClickPath ''b''] boot))
       = ''a''
   \<and> filesEl (step (Settle 1 (ListResp (Body a_listing)))
                 (exec [ClickPath ''a'', ClickPath ''b''] boot))
       = Rows [\<lparr>label = ''out.csv'', rsize = Some 10, rmtime = None,
                action = Download ''a/out.csv''\<rparr>]"
proof -
  let ?s = "exec [ClickPath ''a'', ClickPath ''b''] boot"
  have h1: "js_index (inflight ?s) 1 = Some (ListReq ''a'')"
    by (simp add: run_defs handler_defs)
  have h2: "lok a_listing" by (simp add: a_listing_def)
  have h3: "current_path ?s = ''b''" by (simp add: run_defs handler_defs)
  have h4: "or_opt (lcwd a_listing) [] = ''a''"
    by (simp add: a_listing_def or_opt_def or_str_def)
  have h5: "listing_view a_listing
            = Rows [\<lparr>label = ''out.csv'', rsize = Some 10, rmtime = None,
                     action = Download ''a/out.csv''\<rparr>]"
    by (simp add: a_listing_def listing_view_def render_entry_def)
  from listing_response_applied[OF h1 h2] h1 h2 h3 h4 h5 show ?thesis by simp
qed

end
